theory Spec2Isabelle
  imports Main "HOL-Library.Sublist" "HOL-Library.Char_ord" "HOL-Library.List_Lexorder"
begin

section \<open>Python strings\<close>

text \<open>
  A Python \<open>str\<close> is modelled as a \<open>string\<close>: a list of characters, each read as the
  code point of the same number. Comparison of strings (\<open>sorted\<close>) is lexicographic on
  code points, which is the order of \<open>HOL-Library.List_Lexorder\<close> over \<open>HOL-Library.Char_ord\<close>.
\<close>

definition tab :: char where
  "tab = CHR 0x09"

definition newline :: char where
  "newline = CHR 0x0A"

definition quote :: string where
  "quote = [CHR 0x27]"

text \<open>\<open>s.endswith(suf)\<close> and \<open>s.startswith(pre)\<close>.\<close>

definition endswith :: "string \<Rightarrow> string \<Rightarrow> bool" where
  "endswith s suf = (length suf \<le> length s \<and> drop (length s - length suf) s = suf)"

definition startswith :: "string \<Rightarrow> string \<Rightarrow> bool" where
  "startswith s pre = (take (length pre) s = pre)"

text \<open>
  \<open>s.lower()\<close>: the letters \<open>A\<close> to \<open>Z\<close> become \<open>a\<close> to \<open>z\<close>. Python also lowers letters
  beyond ASCII; none of them becomes one of the characters of \<open>.gtf\<close>, the only text a
  lowered string is compared with in this program, so they are left as they are.
\<close>

definition lower_char :: "char \<Rightarrow> char" where
  "lower_char c =
     (if CHR ''A'' \<le> c \<and> c \<le> CHR ''Z'' then char_of (of_char c + (32::nat)) else c)"

definition lower :: "string \<Rightarrow> string" where
  "lower s = map lower_char s"

text \<open>
  \<open>c.isspace()\<close> on the code points below 256, and \<open>s.strip()\<close>, which removes the
  whitespace at both ends.
\<close>

definition isspace :: "char \<Rightarrow> bool" where
  "isspace c = (of_char c \<in> set [9, 10, 11, 12, 13, 28, 29, 30, 31, 32, 133, 160 :: nat])"

definition strip :: "string \<Rightarrow> string" where
  "strip s = rev (dropWhile isspace (rev (dropWhile isspace s)))"

text \<open>\<open>s.split("\t")[0]\<close>: the text before the first tab (the whole of \<open>s\<close> without one).\<close>

definition first_column :: "string \<Rightarrow> string" where
  "first_column s = takeWhile (\<lambda>c. c \<noteq> tab) s"

text \<open>\<open>sub in s\<close> on strings: \<open>sub\<close> occurs in \<open>s\<close> as a contiguous run.\<close>

fun str_contains :: "string \<Rightarrow> string \<Rightarrow> bool" where
  "str_contains [] sub = (sub = [])"
| "str_contains (c # cs) sub = (startswith (c # cs) sub \<or> str_contains cs sub)"

text \<open>\<open>sep.join(xs)\<close>.\<close>

fun join :: "string \<Rightarrow> string list \<Rightarrow> string" where
  "join sep [] = []"
| "join sep [x] = x"
| "join sep (x # y # ys) = x @ sep @ join sep (y # ys)"

text \<open>\<open>str(n)\<close> for a count: its decimal digits.\<close>

definition digit :: "nat \<Rightarrow> char" where
  "digit d = char_of (48 + d)"

fun str_nat :: "nat \<Rightarrow> string" where
  "str_nat n = (if n < 10 then [digit n] else str_nat (n div 10) @ [digit (n mod 10)])"

text \<open>
  \<open>os.path.join(a, b)\<close> on POSIX: an absolute \<open>b\<close> replaces \<open>a\<close>; otherwise the two are
  joined by one slash unless \<open>a\<close> is empty or already ends in one.
\<close>

definition path_join :: "string \<Rightarrow> string \<Rightarrow> string" where
  "path_join a b =
     (if startswith b ''/'' then b
      else if a = [] \<or> endswith a ''/'' then a @ b
      else a @ ''/'' @ b)"

section \<open>Format of the annotation file\<close>

text \<open>
  \<^verbatim>\<open>
  def _is_gtf(file_name):
      return file_name.lower().endswith(".gtf") or file_name.endswith(".gtf.gz")
  \<close>
\<close>

definition is_gtf :: "string \<Rightarrow> bool" where
  "is_gtf file_name = (endswith (lower file_name) ''.gtf'' \<or> endswith file_name ''.gtf.gz'')"

text \<open>
  \<^verbatim>\<open>
  def get_genome_name(gff_file):
      return re.sub("\.gff(\.gz)?$", "", gff_file.name)
  \<close>
  The pattern is matched by hand. \<open>$\<close> (no \<open>MULTILINE\<close> flag) holds at the end of the
  string and just before a newline that is the last character. \<open>match_gff s\<close> is the length
  of the match of the pattern at the start of \<open>s\<close>: the text \<open>.gff\<close>, then \<open>.gz\<close> when
  \<open>$\<close> holds after it (the group is greedy), else nothing when \<open>$\<close> holds there.
  \<open>re_sub_gff\<close> is \<open>re.sub\<close> with the empty replacement: it scans from the left, drops
  each match and goes on after it, and keeps every other character.
\<close>

definition at_dollar :: "string \<Rightarrow> bool" where
  "at_dollar rest = (rest = [] \<or> rest = [newline])"

definition match_gff :: "string \<Rightarrow> nat option" where
  "match_gff s =
     (if startswith s ''.gff'' then
        (if startswith (drop 4 s) ''.gz'' \<and> at_dollar (drop 7 s) then Some 7
         else if at_dollar (drop 4 s) then Some 4
         else None)
      else None)"

function re_sub_gff :: "string \<Rightarrow> string" where
  "re_sub_gff [] = []"
| "re_sub_gff (c # cs) =
     (case match_gff (c # cs) of
        Some n \<Rightarrow> re_sub_gff (drop n (c # cs))
      | None \<Rightarrow> c # re_sub_gff cs)"
  by pat_completeness auto
termination
proof (relation "measure length")
  show "wf (measure length)" by simp
next
  fix c cs n
  assume "match_gff (c # cs) = Some n"
  then have "0 < n"
    by (auto simp: match_gff_def split: if_splits)
  then show "(drop n (c # cs), c # cs) \<in> measure length"
    by (cases n) auto
next
  fix c :: char and cs :: string
  show "(cs, c # cs) \<in> measure length" by simp
qed

record text_file =
  name :: string
  content :: string

definition get_genome_name :: "text_file \<Rightarrow> string" where
  "get_genome_name gff_file = re_sub_gff (name gff_file)"

section \<open>Exceptions and logging\<close>

text \<open>
  The exception classes of the module, and the built-in exceptions that its own
  expressions can raise (\<open>line[0]\<close>, \<open>error_map[error]\<close>, \<open>open\<close>, \<open>shutil.move\<close>).
  \<open>CalledProcessError\<close> is what \<open>subprocess.check_call\<close> raises on a non-zero exit.
\<close>

datatype error =
    MissingSNPEffError
  | WrongJavaError
  | NoCommonContigsError
  | MissingCodonTableError
  | UnknownCodingTableError
  | BuildDatabaseError
  | AnnotationError
  | CalledProcessError
  | IndexError
  | KeyError
  | FileNotFoundError

text \<open>
  The module-level \<open>logger\<close> is state: the list of the records logged so far, oldest
  first. \<open>logger.warn\<close> logs at level \<open>Warning\<close>.
\<close>

datatype level = Debug | Info | Warning

type_synonym log_entry = "level \<times> string"

type_synonym logger = "log_entry list"

definition log_msg :: "level \<Rightarrow> string \<Rightarrow> logger \<Rightarrow> logger" where
  "log_msg lv msg lg = lg @ [(lv, msg)]"

text \<open>A \<open>for x in xs: logger.warn(fmt % x)\<close> loop.\<close>

definition warn_each :: "('a \<Rightarrow> string) \<Rightarrow> 'a list \<Rightarrow> logger \<Rightarrow> logger" where
  "warn_each fmt xs lg = foldl (\<lambda>l x. log_msg Warning (fmt x) l) lg xs"

section \<open>Contig extraction\<close>

text \<open>
  Iterating over a text file yields its lines, each with its newline; only the last line
  can lack one. \<open>seek(0)\<close> makes the iteration start at the beginning of the content.
\<close>

fun lines_from :: "string \<Rightarrow> string \<Rightarrow> string list" where
  "lines_from cur [] = (if cur = [] then [] else [cur])"
| "lines_from cur (c # cs) =
     (if c = newline then (cur @ [c]) # lines_from [] cs else lines_from (cur @ [c]) cs)"

definition file_lines :: "text_file \<Rightarrow> string list" where
  "file_lines f = lines_from [] (content f)"

text \<open>
  \<^verbatim>\<open>
  contigs = set()
  for line in vcf_file:
      if line[0] == "#":
          continue
      contig = line.split("\t")[0].strip()
      contigs.add(contig)
  return sorted(contigs)
  \<close>
  The loop is the same in \<open>get_annotation_contigs\<close> and \<open>get_vcf_contigs\<close>. \<open>line[0]\<close>
  raises \<open>IndexError\<close> on an empty string.
\<close>

fun contigs_loop :: "string list \<Rightarrow> string set \<Rightarrow> error + string set" where
  "contigs_loop [] contigs = Inr contigs"
| "contigs_loop (line # rest) contigs =
     (case line of
        [] \<Rightarrow> Inl IndexError
      | c # _ \<Rightarrow>
          if c = CHR ''#'' then contigs_loop rest contigs
          else contigs_loop rest (insert (strip (first_column line)) contigs))"

definition get_vcf_contigs :: "text_file \<Rightarrow> error + string list" where
  "get_vcf_contigs vcf_file =
     (case contigs_loop (file_lines vcf_file) {} of
        Inl err \<Rightarrow> Inl err
      | Inr contigs \<Rightarrow> Inr (sorted_list_of_set contigs))"

definition get_annotation_contigs :: "text_file \<Rightarrow> logger \<Rightarrow> (error + string list) \<times> logger" where
  "get_annotation_contigs annotation_file lg =
     (let lg1 = log_msg Debug ''Getting the contigs from the annotation file'' lg
      in case contigs_loop (file_lines annotation_file) {} of
           Inl err \<Rightarrow> (Inl err, lg1)
         | Inr contigs \<Rightarrow> (Inr (sorted_list_of_set contigs), lg1))"

section \<open>Consistency of contigs and coding tables\<close>

text \<open>
  The coding table is the dictionary that \<open>yaml.full_load\<close> returns: its items in
  insertion order, with distinct keys. \<open>k in d\<close> tests the keys; \<open>d.values()\<close> lists the
  values in insertion order.
\<close>

type_synonym dict = "(string \<times> string) list"

definition dict_keys :: "dict \<Rightarrow> string set" where
  "dict_keys d = set (map fst d)"

definition dict_values :: "dict \<Rightarrow> string list" where
  "dict_values d = map snd d"

definition known_encodings :: "string list" where
  "known_encodings =
     [''Alternative_Flatworm_Mitochondrial'',
      ''Alternative_Yeast_Nuclear'',
      ''Ascidian_Mitochondrial'',
      ''Bacterial_and_Plant_Plastid'',
      ''Blepharisma_Macronuclear'',
      ''Chlorophycean_Mitochondrial'',
      ''Ciliate_Nuclear'',
      ''Coelenterate'',
      ''Dasycladacean_Nuclear'',
      ''Echinoderm_Mitochondrial'',
      ''Euplotid_Nuclear'',
      ''Flatworm_Mitochondrial'',
      ''Hexamita_Nuclear'',
      ''Invertebrate_Mitochondrial'',
      ''Mitochondrial'',
      ''Mold_Mitochondrial'',
      ''Mycoplasma'',
      ''Protozoan_Mitochondrial'',
      ''Scenedesmus_obliquus_Mitochondrial'',
      ''Spiroplasma'',
      ''Standard'',
      ''Thraustochytrium_Mitochondrial'',
      ''Trematode_Mitochondrial'',
      ''Vertebrate_Mitochondrial'',
      ''Yeast_Mitochondrial'']"

text \<open>The three lists that \<open>check_contigs\<close> computes, and the warning logged for each entry.\<close>

definition missing_coding_tables :: "string list \<Rightarrow> dict \<Rightarrow> string list" where
  "missing_coding_tables vcf_contigs coding_table =
     (if ''default'' \<notin> dict_keys coding_table
      then filter (\<lambda>table. table \<notin> dict_keys coding_table) vcf_contigs
      else [])"

definition missing_contigs :: "string list \<Rightarrow> string list \<Rightarrow> string list" where
  "missing_contigs vcf_contigs annotation_contigs =
     filter (\<lambda>contig. contig \<notin> set annotation_contigs) vcf_contigs"

definition unknown_encodings :: "dict \<Rightarrow> string list" where
  "unknown_encodings coding_table =
     filter (\<lambda>enc. enc \<notin> set known_encodings) (dict_values coding_table)"

definition no_coding_table_msg :: "string \<Rightarrow> string" where
  "no_coding_table_msg table =
     ''Cannot annotate VCF, no coding table set for '' @ quote @ table @ quote"

definition no_annotation_msg :: "string \<Rightarrow> string" where
  "no_annotation_msg contig =
     ''Could not annotate contig '' @ quote @ contig @ quote @ '', no annotation data''"

definition unknown_encoding_msg :: "string \<Rightarrow> string" where
  "unknown_encoding_msg encoding = ''Could not find coding table '' @ quote @ encoding @ quote"

text \<open>
  \<open>check_contigs\<close>: the three loops of warnings run first, in this order; the three
  \<open>raise\<close> statements follow, the first whose condition holds ending the call.
\<close>

definition check_contigs ::
  "string list \<Rightarrow> string list \<Rightarrow> dict \<Rightarrow> logger \<Rightarrow> (error + unit) \<times> logger" where
  "check_contigs vcf_contigs annotation_contigs coding_table lg0 =
     (let lg1 = log_msg Info ''Checking that the VCF and GTF/GFF contigs are consistent'' lg0;
          missing_tables = missing_coding_tables vcf_contigs coding_table;
          lg2 = warn_each no_coding_table_msg missing_tables lg1;
          missing = missing_contigs vcf_contigs annotation_contigs;
          lg3 = warn_each no_annotation_msg missing lg2;
          unknown = unknown_encodings coding_table;
          lg4 = warn_each unknown_encoding_msg unknown lg3
      in if length missing_tables > 0 then (Inl MissingCodonTableError, lg4)
         else if missing = vcf_contigs then (Inl NoCommonContigsError, lg4)
         else if length unknown > 0 then (Inl UnknownCodingTableError, lg4)
         else (Inr (), lg4))"

section \<open>Classification of the annotated output\<close>

text \<open>
  \<open>_remove_headers\<close> drops the lines that \<open>re.match("^##.*$", line)\<close> accepts: \<open>##\<close>, then
  characters other than a newline up to a place where \<open>$\<close> holds.
\<close>

definition header_regex_match :: "string \<Rightarrow> bool" where
  "header_regex_match line =
     (startswith line ''##'' \<and> at_dollar (dropWhile (\<lambda>c. c \<noteq> newline) (drop 2 line)))"

definition remove_headers :: "string list \<Rightarrow> string list" where
  "remove_headers annotated_vcf = filter (\<lambda>line. \<not> header_regex_match line) annotated_vcf"

text \<open>
  A record of the reader of the \<open>vcf\<close> package: of its fields only \<open>INFO\<close> is read, a
  dictionary from the keys of the INFO column to their values; the value of \<open>ANN\<close> is a
  list of strings.
\<close>

record vcf_record =
  INFO :: "string \<rightharpoonup> string list"

definition error_map :: "(string \<times> string) list" where
  "error_map =
     [(''WARNING_REF_DOES_NOT_MATCH_GENOME'',
       ''The reference base in your VCF didn'' @ quote @ ''t match the base in the annotation file. Are you sure you have the right reference?''),
      (''WARNING_SEQUENCE_NOT_AVAILABLE'',
       ''A reference sequence was not available in your annotation file. Please check that a reference sequence is available for every contig in your VCF''),
      (''WARNING_TRANSCRIPT_NO_START_CODON'',
       ''Start codon does not match any '' @ quote @ ''start'' @ quote @ '' codon in the CodonTable. This usually indicates an error on the reference genome (or database) but could be also due to a misconfigured codon table for the genome.''),
      (''ERROR_CHROMOSOME_NOT_FOUND'',
       ''A contig in your VCF could not be found in your annotation file. Are you sure that contigs use consitent names between your input data and the reference?''),
      (''ERROR_OUT_OF_CHROMOSOME_RANGE'',
       ''One of your variants appears to be in a position beyond the end of the reference sequence. That'' @ quote @ ''s really weird, please check that you reference sequence matches your input data'')]"

text \<open>
  A \<open>Counter\<close> is a dictionary from keys to counts, in insertion order. A key it does not
  hold counts 0. \<open>update\<close> with a dictionary adds each of its counts, a new key going last.
\<close>

type_synonym counter = "(string \<times> nat) list"

definition counter_get :: "counter \<Rightarrow> string \<Rightarrow> nat" where
  "counter_get cnt k = (case map_of cnt k of None \<Rightarrow> 0 | Some n \<Rightarrow> n)"

fun counter_add :: "counter \<Rightarrow> string \<Rightarrow> nat \<Rightarrow> counter" where
  "counter_add [] k n = [(k, n)]"
| "counter_add ((k', m) # cnt) k n =
     (if k' = k then (k', m + n) # cnt else (k', m) # counter_add cnt k n)"

definition counter_update :: "counter \<Rightarrow> (string \<times> nat) list \<Rightarrow> counter" where
  "counter_update cnt upd = foldl (\<lambda>c (k, n). counter_add c k n) cnt upd"

text \<open>
  \<^verbatim>\<open>
  annotations = ""
  for record in vcf_reader:
      try:
          annotations = ",".join(record.INFO["ANN"])
      except KeyError:
          counter_update = {error: 1 for error in error_map if error in annotations}
          error_counter.update(counter_update)
  \<close>
  The loop carries the variable \<open>annotations\<close> and the counter from record to record.
\<close>

definition scan_annotations :: "string \<Rightarrow> (string \<times> nat) list" where
  "scan_annotations annotations =
     map (\<lambda>(error, _). (error, 1)) (filter (\<lambda>(error, _). str_contains annotations error) error_map)"

fun check_annotations_loop :: "vcf_record list \<Rightarrow> string \<Rightarrow> counter \<Rightarrow> string \<times> counter" where
  "check_annotations_loop [] annotations error_counter = (annotations, error_counter)"
| "check_annotations_loop (rec # vcf_reader) annotations error_counter =
     (case INFO rec ''ANN'' of
        Some ann \<Rightarrow> check_annotations_loop vcf_reader (join '','' ann) error_counter
      | None \<Rightarrow>
          check_annotations_loop vcf_reader annotations
            (counter_update error_counter (scan_annotations annotations)))"

definition error_tally :: "vcf_record list \<Rightarrow> counter" where
  "error_tally vcf_reader = snd (check_annotations_loop vcf_reader [] [])"

text \<open>
  \<^verbatim>\<open>
  for error, count in error_counter.items():
      logger.warn("%s instances of '%s': %s" % (count, error, error_map[error]))
  \<close>
  \<open>error_map[error]\<close> raises \<open>KeyError\<close> for a key the dictionary does not hold.
\<close>

definition instances_msg :: "nat \<Rightarrow> string \<Rightarrow> string \<Rightarrow> string" where
  "instances_msg count error explanation =
     str_nat count @ '' instances of '' @ quote @ error @ quote @ '': '' @ explanation"

fun warn_counts :: "counter \<Rightarrow> logger \<Rightarrow> (error + unit) \<times> logger" where
  "warn_counts [] lg = (Inr (), lg)"
| "warn_counts ((error, count) # items) lg =
     (case map_of error_map error of
        None \<Rightarrow> (Inl KeyError, lg)
      | Some explanation \<Rightarrow>
          warn_counts items (log_msg Warning (instances_msg count error explanation) lg))"

text \<open>
  \<open>check_annotations\<close> on the records that the reader yields for the annotated output
  without its header lines.
\<close>

definition check_records :: "vcf_record list \<Rightarrow> logger \<Rightarrow> (error + unit) \<times> logger" where
  "check_records vcf_reader lg =
     (let error_counter = error_tally vcf_reader
      in case warn_counts error_counter lg of
           (Inl err, lg1) \<Rightarrow> (Inl err, lg1)
         | (Inr _, lg1) \<Rightarrow>
             if length error_counter > 0
             then (Inr (), log_msg Warning
                     ''There were problems during the annotation, please review the warnings for details'' lg1)
             else (Inr (), lg1))"

definition check_annotations ::
  "(string list \<Rightarrow> vcf_record list) \<Rightarrow> text_file \<Rightarrow> logger \<Rightarrow> (error + unit) \<times> logger" where
  "check_annotations vcf_Reader annotated_vcf lg =
     (let lg1 = log_msg Info ''Checking the annotated VCF for common issues'' lg;
          modified_vcf = remove_headers (file_lines annotated_vcf)
      in check_records (vcf_Reader modified_vcf) lg1)"

section \<open>The run: scratch database, external steps, results\<close>

text \<open>
  The state a run changes: the logger, the directories and the files of the file system
  (a file is its path and its text), and the two console streams.
\<close>

record world =
  logger :: logger
  dirs :: "string set"
  files :: "string \<rightharpoonup> string"
  console_out :: string
  console_err :: string

text \<open>
  What the run takes from outside the module. \<open>mkdtemp prefix dir\<close> and
  \<open>mkstemp dir prefix suffix\<close> are the paths that \<open>tempfile\<close> chooses; \<open>render\<close> is the
  rendering of \<open>config.template\<close>; \<open>yaml_full_load\<close> parses the coding table;
  \<open>vcf_Reader\<close> is the reader of the \<open>vcf\<close> package. \<open>run_process command\<close> is the
  external process: its exit status, what it prints on its two streams, and the files it
  writes itself.
\<close>

record proc_result =
  exit_status :: int
  proc_out :: string
  proc_err :: string
  written :: "(string \<times> string) list"

record env =
  cwd :: string
  mkdtemp :: "string \<Rightarrow> string \<Rightarrow> string"
  mkstemp :: "string \<Rightarrow> string \<Rightarrow> string \<Rightarrow> string"
  render :: "string \<Rightarrow> string \<Rightarrow> string list \<Rightarrow> dict \<Rightarrow> string"
  yaml_full_load :: "string \<Rightarrow> dict"
  vcf_Reader :: "string list \<Rightarrow> vcf_record list"
  run_process :: "string list \<Rightarrow> proc_result"

text \<open>Where a stream of a process, or the output of the run, goes.\<close>

datatype stream = Sys_stdout | Sys_stderr | File string

definition log_world :: "level \<Rightarrow> string \<Rightarrow> world \<Rightarrow> world" where
  "log_world lv msg w = w\<lparr>logger := log_msg lv msg (logger w)\<rparr>"

definition write_file :: "string \<Rightarrow> string \<Rightarrow> world \<Rightarrow> world" where
  "write_file path txt w = w\<lparr>files := (files w)(path \<mapsto> txt)\<rparr>"

definition append_file :: "string \<Rightarrow> string \<Rightarrow> world \<Rightarrow> world" where
  "append_file path txt w =
     w\<lparr>files := (files w)(path \<mapsto> (case files w path of None \<Rightarrow> txt | Some old \<Rightarrow> old @ txt))\<rparr>"

definition write_stream :: "stream \<Rightarrow> string \<Rightarrow> world \<Rightarrow> world" where
  "write_stream dest txt w =
     (case dest of
        Sys_stdout \<Rightarrow> w\<lparr>console_out := console_out w @ txt\<rparr>
      | Sys_stderr \<Rightarrow> w\<lparr>console_err := console_err w @ txt\<rparr>
      | File path \<Rightarrow> append_file path txt w)"

definition parse_coding_table :: "env \<Rightarrow> string \<Rightarrow> world \<Rightarrow> dict \<times> world" where
  "parse_coding_table e coding_table_str w =
     (yaml_full_load e coding_table_str, log_world Debug ''Parsing the coding table'' w)"

text \<open>
  \<open>create_temp_database\<close>: the extension of the copy is chosen by \<open>_is_gtf\<close> on the name of
  the annotation file.
\<close>

definition file_ext :: "text_file \<Rightarrow> string" where
  "file_ext annotation_file = (if is_gtf (name annotation_file) then ''gtf'' else ''gff'')"

definition create_temp_database :: "env \<Rightarrow> text_file \<Rightarrow> world \<Rightarrow> string \<times> world" where
  "create_temp_database e annotation_file w =
     (let database_dir = mkdtemp e ''snpeff_data_dir_'' (cwd e);
          w1 = w\<lparr>dirs := insert database_dir (dirs w)\<rparr>;
          w2 = log_world Debug (''Creating directory '' @ database_dir @ '' for temporary database'') w1;
          data_dir = path_join database_dir ''data'';
          w3 = log_world Debug (''data_dir: '' @ data_dir) w2;
          w4 = w3\<lparr>dirs := insert data_dir (dirs w3)\<rparr>;
          w5 = write_file (path_join data_dir (''genes.'' @ file_ext annotation_file))
                 (content annotation_file) w4
      in (database_dir, w5))"

definition create_config_file ::
  "env \<Rightarrow> string \<Rightarrow> string \<Rightarrow> string list \<Rightarrow> dict \<Rightarrow> world \<Rightarrow> string \<times> world" where
  "create_config_file e temp_database_dir genome_name vcf_contigs table w =
     (let output_filename = path_join temp_database_dir ''config'';
          config_content = render e temp_database_dir genome_name vcf_contigs table;
          w1 = log_world Debug (''Writing config to '' @ output_filename) w;
          w2 = write_file output_filename (config_content @ [newline]) w1
      in (output_filename, w2))"

text \<open>
  \<open>subprocess.check_call\<close>: the process runs to its end; its streams go where they are
  directed; a non-zero exit status raises \<open>CalledProcessError\<close>.
\<close>

definition check_call ::
  "env \<Rightarrow> string list \<Rightarrow> stream \<Rightarrow> stream \<Rightarrow> world \<Rightarrow> (error + unit) \<times> world" where
  "check_call e command stdout stderr w =
     (let r = run_process e command;
          w1 = foldl (\<lambda>v (path, txt). write_file path txt v) w (written r);
          w2 = write_stream stdout (proc_out r) w1;
          w3 = write_stream stderr (proc_err r) w2
      in (if exit_status r \<noteq> 0 then Inl CalledProcessError else Inr (), w3))"

text \<open>
  \<open>_snpeff_build_database\<close>: the flag of the format is chosen by \<open>_is_gtf\<close> on the name of
  the annotation file.
\<close>

definition annotation_flag :: "text_file \<Rightarrow> string" where
  "annotation_flag annotation_file = (if is_gtf (name annotation_file) then ''-gtf22'' else ''-gff3'')"

definition build_command :: "string \<Rightarrow> string \<Rightarrow> string \<Rightarrow> text_file \<Rightarrow> string list" where
  "build_command java snpeff config_filename annotation_file =
     [java, ''-Xmx4g'', ''-jar'', snpeff, ''build'', annotation_flag annotation_file,
      ''-verbose'', ''data'', ''-c'', config_filename]"

definition snpeff_build_database ::
  "env \<Rightarrow> string \<Rightarrow> string \<Rightarrow> string \<Rightarrow> text_file \<Rightarrow> stream \<Rightarrow> stream \<Rightarrow> world
    \<Rightarrow> (error + unit) \<times> world" where
  "snpeff_build_database e java snpeff config_filename annotation_file stdout stderr w =
     (let command = build_command java snpeff config_filename annotation_file;
          w1 = log_world Info ''Building snpeff database'' w;
          w2 = log_world Debug
                 (''Using the following command: '' @ quote @ join '' '' command @ quote) w1
      in case check_call e command stdout stderr w2 of
           (Inl _, w3) \<Rightarrow> (Inl BuildDatabaseError, w3)
         | (Inr _, w3) \<Rightarrow> (Inr (), w3))"

definition annotate_command ::
  "string \<Rightarrow> string \<Rightarrow> string \<Rightarrow> string \<Rightarrow> string \<Rightarrow> string \<Rightarrow> string list" where
  "annotate_command java snpeff vcf_filename config_filename output_name annotation_stats_file =
     [java, ''-Xmx4g'', ''-jar'', snpeff, ''ann'', ''-nodownload'', ''-verbose'',
      ''-no-downstream'', ''-no-intergenic'', ''-no-intron'', ''-no-upstream'', ''-no-utr'',
      ''-csvStats'', output_name @ ''.csv'', ''-stats'', annotation_stats_file,
      ''-c'', config_filename, ''data'', vcf_filename]"

definition snpeff_annotate ::
  "env \<Rightarrow> string \<Rightarrow> string \<Rightarrow> string \<Rightarrow> string \<Rightarrow> string \<Rightarrow> stream \<Rightarrow> string \<Rightarrow> world
    \<Rightarrow> (error + unit) \<times> world" where
  "snpeff_annotate e java snpeff vcf_filename config_filename output_name stderr annotation_stats_file w =
     (let command = annotate_command java snpeff vcf_filename config_filename output_name
                      annotation_stats_file;
          w1 = log_world Info (''Annotating '' @ vcf_filename) w;
          w2 = log_world Debug
                 (''Using the following command: '' @ quote @ join '' '' command @ quote) w1;
          w3 = log_world Debug (''writing output to '' @ output_name) w2
      in case check_call e command (File output_name) stderr w3 of
           (Inl _, w4) \<Rightarrow> (Inl AnnotationError, w4)
         | (Inr _, w4) \<Rightarrow> (Inr (), w4))"

text \<open>
  \<open>_get_snpeff_output_files\<close>: a named temporary file is created empty in the scratch
  directory; in debug mode the streams of the two steps are the console's.
\<close>

definition get_snpeff_output_files ::
  "env \<Rightarrow> string \<Rightarrow> bool \<Rightarrow> world \<Rightarrow> (string \<times> stream \<times> stream \<times> stream) \<times> world" where
  "get_snpeff_output_files e temp_database_dir dbg w =
     (let temp_output_file = mkstemp e temp_database_dir ''snpeff_output_'' ''.vcf'';
          w1 = write_file temp_output_file [] w
      in if dbg then ((temp_output_file, Sys_stdout, Sys_stderr, Sys_stderr), w1)
         else
           (let build_stdout = mkstemp e temp_database_dir ''snpeff_build_db_'' ''.o'';
                build_stderr = mkstemp e temp_database_dir ''snpeff_build_db_'' ''.e'';
                annotate_stderr = mkstemp e temp_database_dir ''snpeff_annotate_'' ''.e'';
                w2 = write_file annotate_stderr []
                       (write_file build_stderr [] (write_file build_stdout [] w1))
            in ((temp_output_file, File build_stdout, File build_stderr, File annotate_stderr), w2)))"

text \<open>
  \<open>run_snpeff\<close>: the build step, then the annotate step; an exception of either ends the
  call. The output file is opened again for reading (\<open>open\<close> raises when it is gone).
\<close>

definition run_snpeff ::
  "env \<Rightarrow> string \<Rightarrow> string \<Rightarrow> string \<Rightarrow> text_file \<Rightarrow> string \<Rightarrow> bool \<Rightarrow> text_file \<Rightarrow> world
    \<Rightarrow> (error + text_file) \<times> world" where
  "run_snpeff e temp_database_dir java snpeff vcf config_filename dbg annotation_file w =
     (case get_snpeff_output_files e temp_database_dir dbg w of
        ((temp_output_file, build_stdout, build_stderr, annotate_stderr), w1) \<Rightarrow>
          (let vcf_filename = name vcf
           in case snpeff_build_database e java snpeff config_filename annotation_file
                     build_stdout build_stderr w1 of
                (Inl err, w2) \<Rightarrow> (Inl err, w2)
              | (Inr _, w2) \<Rightarrow>
                  (let w3 = log_world Debug (''Outputting temporary VCF to '' @ vcf_filename) w2;
                       annotation_stats_file = path_join temp_database_dir ''snpEff_summary.html''
                   in case snpeff_annotate e java snpeff vcf_filename config_filename
                             temp_output_file annotate_stderr annotation_stats_file w3 of
                        (Inl err, w4) \<Rightarrow> (Inl err, w4)
                      | (Inr _, w4) \<Rightarrow>
                          (case files w4 temp_output_file of
                             None \<Rightarrow> (Inl FileNotFoundError, w4)
                           | Some txt \<Rightarrow>
                               (Inr \<lparr>name = temp_output_file, content = txt\<rparr>, w4)))))"

text \<open>\<open>shutil.move\<close> of a file, and \<open>shutil.rmtree\<close> of a directory with all below it.\<close>

definition shutil_move :: "string \<Rightarrow> string \<Rightarrow> world \<Rightarrow> (error + unit) \<times> world" where
  "shutil_move src dst w =
     (case files w src of
        None \<Rightarrow> (Inl FileNotFoundError, w)
      | Some txt \<Rightarrow> (Inr (), w\<lparr>files := ((files w)(src := None))(dst \<mapsto> txt)\<rparr>))"

definition below :: "string \<Rightarrow> string \<Rightarrow> bool" where
  "below dir path = (path = dir \<or> startswith path (dir @ ''/''))"

definition rmtree :: "string \<Rightarrow> world \<Rightarrow> world" where
  "rmtree dir w =
     w\<lparr>dirs := Set.filter (\<lambda>p. \<not> below dir p) (dirs w),
       files := (\<lambda>p. if below dir p then None else files w p)\<rparr>"

definition move_annotated_vcf :: "text_file \<Rightarrow> stream \<Rightarrow> world \<Rightarrow> (error + unit) \<times> world" where
  "move_annotated_vcf annotated_vcf output w =
     (case output of
        Sys_stdout \<Rightarrow>
          (Inr (), write_stream Sys_stdout (content annotated_vcf @ [newline])
                     (log_world Info ''Writing output to stdout'' w))
      | Sys_stderr \<Rightarrow>
          shutil_move (name annotated_vcf) ''<stderr>''
            (log_world Info (''Moving annotated VCF from '' @ name annotated_vcf @ '' to <stderr>'') w)
      | File output_name \<Rightarrow>
          shutil_move (name annotated_vcf) output_name
            (log_world Info
               (''Moving annotated VCF from '' @ name annotated_vcf @ '' to '' @ output_name) w))"

definition move_summary_csv :: "text_file \<Rightarrow> stream \<Rightarrow> world \<Rightarrow> (error + unit) \<times> world" where
  "move_summary_csv summary_csv output w =
     (case output of
        Sys_stdout \<Rightarrow> (Inr (), log_world Info ''Now dumping CSV to stdout'' w)
      | Sys_stderr \<Rightarrow>
          shutil_move (name summary_csv @ ''.csv'') ''<stderr>.csv''
            (log_world Info
               (''Moving summary CSV from '' @ name summary_csv @ ''.csv to <stderr>.csv'') w)
      | File output_name \<Rightarrow>
          shutil_move (name summary_csv @ ''.csv'') (output_name @ ''.csv'')
            (log_world Info
               (''Moving summary CSV from '' @ name summary_csv @ ''.csv to '' @ output_name
                  @ ''.csv'') w))"

definition delete_temp_database :: "string \<Rightarrow> world \<Rightarrow> world" where
  "delete_temp_database temp_database_dir w =
     rmtree temp_database_dir
       (log_world Debug (''Deleting temporary files from '' @ temp_database_dir) w)"

text \<open>
  The end of \<open>annotate_vcf\<close>, from \<open>run_snpeff\<close> on: each call is made once the one before
  has returned, and an exception of any of them leaves \<open>annotate_vcf\<close> at once.
  \<^verbatim>\<open>
  annotated_vcf = run_snpeff(temp_database_dir, ...)
  check_annotations(annotated_vcf)
  move_annotated_vcf(annotated_vcf, args.output_vcf)
  move_summary_csv(annotated_vcf, args.output_vcf)
  if args.keep:
      logging.info("You can find the temporary files in '%s'", temp_database_dir)
  else:
      delete_temp_database(temp_database_dir)
  \<close>
\<close>

text \<open>
  The arguments of a run. \<open>output_vcf\<close> is \<open>sys.stdout\<close> or an open file, given here by
  its name.
\<close>

record args =
  coding_table :: string
  annotation_file :: text_file
  vcf_file :: text_file
  java_exec :: string
  snpeff_exec :: string
  debug :: bool
  keep :: bool
  output_vcf :: stream

definition run_and_finish ::
  "env \<Rightarrow> args \<Rightarrow> string \<Rightarrow> string \<Rightarrow> world \<Rightarrow> (error + unit) \<times> world" where
  "run_and_finish e a temp_database_dir config_filename w =
     (case run_snpeff e temp_database_dir (java_exec a) (snpeff_exec a) (vcf_file a)
             config_filename (debug a) (annotation_file a) w of
        (Inl err, w1) \<Rightarrow> (Inl err, w1)
      | (Inr annotated_vcf, w1) \<Rightarrow>
          (case check_annotations (vcf_Reader e) annotated_vcf (logger w1) of
             (Inl err, lg) \<Rightarrow> (Inl err, w1\<lparr>logger := lg\<rparr>)
           | (Inr _, lg) \<Rightarrow>
               (case move_annotated_vcf annotated_vcf (output_vcf a) (w1\<lparr>logger := lg\<rparr>) of
                  (Inl err, w2) \<Rightarrow> (Inl err, w2)
                | (Inr _, w2) \<Rightarrow>
                    (case move_summary_csv annotated_vcf (output_vcf a) w2 of
                       (Inl err, w3) \<Rightarrow> (Inl err, w3)
                     | (Inr _, w3) \<Rightarrow>
                         if keep a
                         then (Inr (), log_world Info
                                 (''You can find the temporary files in '' @ quote
                                    @ temp_database_dir @ quote) w3)
                         else (Inr (), delete_temp_database temp_database_dir w3)))))"

definition annotate_vcf :: "env \<Rightarrow> args \<Rightarrow> world \<Rightarrow> (error + unit) \<times> world" where
  "annotate_vcf e a w =
     (case parse_coding_table e (coding_table a) w of
        (table, w1) \<Rightarrow>
          (case get_annotation_contigs (annotation_file a) (logger w1) of
             (Inl err, lg) \<Rightarrow> (Inl err, w1\<lparr>logger := lg\<rparr>)
           | (Inr annotation_contigs, lg) \<Rightarrow>
               (case get_vcf_contigs (vcf_file a) of
                  Inl err \<Rightarrow> (Inl err, w1\<lparr>logger := lg\<rparr>)
                | Inr vcf_contigs \<Rightarrow>
                    (case check_contigs vcf_contigs annotation_contigs table lg of
                       (Inl err, lg1) \<Rightarrow> (Inl err, w1\<lparr>logger := lg1\<rparr>)
                     | (Inr _, lg1) \<Rightarrow>
                         (case create_temp_database e (annotation_file a) (w1\<lparr>logger := lg1\<rparr>) of
                            (temp_database_dir, w2) \<Rightarrow>
                              (case create_config_file e temp_database_dir
                                      (get_genome_name (annotation_file a)) vcf_contigs table w2 of
                                 (config_filename, w3) \<Rightarrow>
                                   run_and_finish e a temp_database_dir config_filename w3))))))"

section \<open>Reading the log\<close>


definition no_coding_table_warnings :: "logger \<Rightarrow> logger" where
  "no_coding_table_warnings lg =
     filter (\<lambda>(lv, msg). lv = Warning
        \<and> startswith msg ''Cannot annotate VCF, no coding table set for '') lg"


definition chop :: "nat \<Rightarrow> string \<Rightarrow> string" where
  "chop k s = take (length s - k) s"

text \<open>
  What the substitution of \<open>get_genome_name\<close> comes to, by the end of the name: one of
  the two suffixes, alone or before a last newline, is taken out.
\<close>

definition strip_gff :: "string \<Rightarrow> string" where
  "strip_gff n =
     (if endswith n ''.gff.gz'' then chop 7 n
      else if endswith n ''.gff'' then chop 4 n
      else if endswith n (''.gff.gz'' @ [newline]) then chop 8 n @ [newline]
      else if endswith n (''.gff'' @ [newline]) then chop 5 n @ [newline]
      else n)"

text \<open>
  The contigs of a file in the words of the specification: the first-column values, as the
  extractor reads them, of the lines that do not start with \<open>#\<close>. And the annotation text
  that the classifier holds after a run of records: that of the last record with an
  \<open>ANN\<close> entry, the empty string when there is none.
\<close>

definition contig_set :: "text_file \<Rightarrow> string set" where
  "contig_set f =
     {strip (first_column l) | l. l \<in> set (file_lines f) \<and> \<not> startswith l ''#''}"

definition most_recent_annotations :: "vcf_record list \<Rightarrow> string" where
  "most_recent_annotations rs =
     (case filter (\<lambda>r. INFO r ''ANN'' \<noteq> None) rs of
        [] \<Rightarrow> []
      | x # xs \<Rightarrow> join '','' (the (INFO (last (x # xs)) ''ANN'')))"

section \<open>Reading a run\<close>

text \<open>
  The scratch directory is the one that \<open>create_temp_database\<close> asks \<open>mkdtemp\<close> for. The
  validation of a run raises nothing when the two extractors and \<open>check_contigs\<close> return.
  The exit statuses of the two external steps are those of the commands that \<open>run_snpeff\<close>
  builds for the scratch directory of the run.
\<close>

definition scratch_dir :: "env \<Rightarrow> string" where
  "scratch_dir e = mkdtemp e ''snpeff_data_dir_'' (cwd e)"

definition validation_ok :: "env \<Rightarrow> args \<Rightarrow> bool" where
  "validation_ok e a =
     (case fst (get_annotation_contigs (annotation_file a) []) of
        Inl _ \<Rightarrow> False
      | Inr annotation_contigs \<Rightarrow>
          (case get_vcf_contigs (vcf_file a) of
             Inl _ \<Rightarrow> False
           | Inr vcf_contigs \<Rightarrow>
               fst (check_contigs vcf_contigs annotation_contigs
                      (yaml_full_load e (coding_table a)) []) = Inr ()))"

definition build_exit :: "env \<Rightarrow> args \<Rightarrow> int" where
  "build_exit e a =
     exit_status (run_process e
       (build_command (java_exec a) (snpeff_exec a) (path_join (scratch_dir e) ''config'')
          (annotation_file a)))"

definition annotate_exit :: "env \<Rightarrow> args \<Rightarrow> int" where
  "annotate_exit e a =
     exit_status (run_process e
       (annotate_command (java_exec a) (snpeff_exec a) (name (vcf_file a))
          (path_join (scratch_dir e) ''config'')
          (mkstemp e (scratch_dir e) ''snpeff_output_'' ''.vcf'')
          (path_join (scratch_dir e) ''snpEff_summary.html'')))"

section \<open>Example inputs\<close>

text \<open>
  A variant file of three records on two contigs, the same lines in another order with one
  repeated, and a variant file of header lines only.
\<close>

definition demo_vcf :: text_file where
  "demo_vcf = \<lparr>name = ''in.vcf'',
     content = ''##fileformat=VCFv4.2'' @ [newline]
       @ ''chr2'' @ [tab] @ ''5'' @ [newline]
       @ ''chr1'' @ [tab] @ ''7'' @ [newline]
       @ ''chr2'' @ [tab] @ ''9'' @ [newline]\<rparr>"


definition demo_vcf_headers_only :: text_file where
  "demo_vcf_headers_only = \<lparr>name = ''empty.vcf'',
     content = ''##fileformat=VCFv4.2'' @ [newline] @ ''#CHROM'' @ [tab] @ ''POS'' @ [newline]\<rparr>"

text \<open>
  A record whose \<open>ANN\<close> entry has two annotations, each with the token
  \<open>ERROR_CHROMOSOME_NOT_FOUND\<close>, and a record with no \<open>ANN\<close> entry.
\<close>

definition demo_record_with_token :: vcf_record where
  "demo_record_with_token =
     \<lparr>INFO = [''ANN'' \<mapsto> [''G|missense_variant|ERROR_CHROMOSOME_NOT_FOUND'',
                            ''T|ERROR_CHROMOSOME_NOT_FOUND'']]\<rparr>"

definition demo_record_without_ann :: vcf_record where
  "demo_record_without_ann = \<lparr>INFO = Map.empty\<rparr>"

text \<open>
  A run: an annotation file of two contigs, the variant file above, no \<open>keep\<close>, output to
  the standard output; and an environment whose two external steps both end with the
  exit status given.
\<close>

definition demo_gff :: text_file where
  "demo_gff = \<lparr>name = ''genes.gff'',
     content = ''##gff-version 3'' @ [newline]
       @ ''chr1'' @ [tab] @ ''src'' @ [tab] @ ''gene'' @ [newline]
       @ ''chr2'' @ [tab] @ ''src'' @ [tab] @ ''gene'' @ [newline]\<rparr>"

definition demo_args :: args where
  "demo_args = \<lparr>coding_table = ''default: Standard'', annotation_file = demo_gff,
     vcf_file = demo_vcf, java_exec = ''java'', snpeff_exec = ''snpEff.jar'',
     debug = False, keep = False, output_vcf = Sys_stdout\<rparr>"

definition demo_world :: world where
  "demo_world = \<lparr>logger = [], dirs = {''/work''}, files = Map.empty,
     console_out = [], console_err = []\<rparr>"

definition demo_env :: "int \<Rightarrow> env" where
  "demo_env status =
     \<lparr>cwd = ''/work'',
      mkdtemp = (\<lambda>prefix dir. path_join dir (prefix @ ''k3x'')),
      mkstemp = (\<lambda>dir prefix suffix. path_join dir (prefix @ ''q7z'' @ suffix)),
      render = (\<lambda>temp_database_dir genome_name vcf_contigs table. ''data.dir = '' @ temp_database_dir),
      yaml_full_load = (\<lambda>coding_table_str. [(''default'', ''Standard'')]),
      vcf_Reader = (\<lambda>lines. []),
      run_process = (\<lambda>command.
        \<lparr>exit_status = status, proc_out = [], proc_err = [], written = []\<rparr>)\<rparr>"

section \<open>Strings: suffixes and prefixes\<close>

lemma endswith_iff: "endswith s suf \<longleftrightarrow> (\<exists>p. s = p @ suf)"
  unfolding endswith_def
proof
  assume "length suf \<le> length s \<and> drop (length s - length suf) s = suf"
  then have "s = take (length s - length suf) s @ suf"
    by (metis append_take_drop_id)
  then show "\<exists>p. s = p @ suf" ..
next
  assume "\<exists>p. s = p @ suf"
  then show "length suf \<le> length s \<and> drop (length s - length suf) s = suf" by auto
qed

lemma startswith_iff: "startswith s pre \<longleftrightarrow> (\<exists>r. s = pre @ r)"
  unfolding startswith_def
  by (metis append_eq_conv_conj append_take_drop_id)

lemma endswith_Cons:
  "endswith (c # cs) suf \<longleftrightarrow> endswith cs suf \<or> c # cs = suf"
  unfolding endswith_iff
  by (metis Cons_eq_append_conv append_Nil)

lemma chop_Cons:
  assumes "endswith cs suf" "length suf = k"
  shows "chop k (c # cs) = c # chop k cs"
proof -
  from assms have "k \<le> length cs" by (auto simp: endswith_def)
  then show ?thesis by (simp add: chop_def Suc_diff_le)
qed

section \<open>The genome name\<close>

lemma match_gff_Some:
  assumes "match_gff s = Some n"
  shows "(s = ''.gff'' \<and> n = 4) \<or> (s = ''.gff'' @ [newline] \<and> n = 4)
       \<or> (s = ''.gff.gz'' \<and> n = 7) \<or> (s = ''.gff.gz'' @ [newline] \<and> n = 7)"
proof -
  from assms obtain r where s: "s = ''.gff'' @ r"
    by (auto simp: match_gff_def startswith_iff split: if_splits)
  show ?thesis
  proof (cases "startswith r ''.gz'' \<and> at_dollar (drop 3 r)")
    case True
    then obtain q where r: "r = ''.gz'' @ q" by (auto simp: startswith_iff)
    with True have "at_dollar q" by simp
    with assms s r show ?thesis by (auto simp: match_gff_def at_dollar_def startswith_def)
  next
    case False
    with assms s have "at_dollar r" "n = 4"
      by (auto simp: match_gff_def startswith_def split: if_splits)
    with s show ?thesis by (auto simp: at_dollar_def)
  qed
qed

lemma strip_gff_Cons:
  assumes "match_gff (c # cs) = None"
  shows "strip_gff (c # cs) = c # strip_gff cs"
proof -
  have ne: "c # cs \<noteq> ''.gff.gz''" "c # cs \<noteq> ''.gff''"
    "c # cs \<noteq> ''.gff.gz'' @ [newline]" "c # cs \<noteq> ''.gff'' @ [newline]"
    using assms by (auto simp: match_gff_def startswith_def at_dollar_def)
  have e: "endswith (c # cs) suf = endswith cs suf" if "c # cs \<noteq> suf" for suf
    using that by (simp add: endswith_Cons)
  have e1: "endswith (c # cs) ''.gff.gz'' = endswith cs ''.gff.gz''"
    and e2: "endswith (c # cs) ''.gff'' = endswith cs ''.gff''"
    and e3: "endswith (c # cs) (''.gff.gz'' @ [newline]) = endswith cs (''.gff.gz'' @ [newline])"
    and e4: "endswith (c # cs) (''.gff'' @ [newline]) = endswith cs (''.gff'' @ [newline])"
    by (rule e, rule ne)+
  consider (a) "endswith cs ''.gff.gz''"
    | (b) "\<not> endswith cs ''.gff.gz''" "endswith cs ''.gff''"
    | (c) "\<not> endswith cs ''.gff.gz''" "\<not> endswith cs ''.gff''"
          "endswith cs (''.gff.gz'' @ [newline])"
    | (d) "\<not> endswith cs ''.gff.gz''" "\<not> endswith cs ''.gff''"
          "\<not> endswith cs (''.gff.gz'' @ [newline])" "endswith cs (''.gff'' @ [newline])"
    | (e) "\<not> endswith cs ''.gff.gz''" "\<not> endswith cs ''.gff''"
          "\<not> endswith cs (''.gff.gz'' @ [newline])" "\<not> endswith cs (''.gff'' @ [newline])"
    by blast
  then show ?thesis
  proof cases
    case a
    then show ?thesis
      unfolding strip_gff_def e1 by (simp add: chop_Cons[OF a])
  next
    case b
    then show ?thesis
      unfolding strip_gff_def e1 e2 by (simp add: chop_Cons[OF b(2)])
  next
    case c
    then show ?thesis
      unfolding strip_gff_def e1 e2 e3 by (simp add: chop_Cons[OF c(3)])
  next
    case d
    then show ?thesis
      unfolding strip_gff_def e1 e2 e3 e4 by (simp add: chop_Cons[OF d(4)])
  next
    case e
    then show ?thesis
      unfolding strip_gff_def e1 e2 e3 e4 by simp
  qed
qed

lemma re_sub_gff_strip_gff: "re_sub_gff s = strip_gff s"
proof (induction s)
  case Nil
  show ?case by (simp add: strip_gff_def endswith_def)
next
  case (Cons c cs)
  show ?case
  proof (cases "match_gff (c # cs)")
    case None
    then show ?thesis using Cons by (simp add: strip_gff_Cons)
  next
    case (Some n)
    from match_gff_Some[OF Some] show ?thesis
      using Some
      by (elim disjE)
         (simp_all add: strip_gff_def chop_def endswith_def newline_def match_gff_def
            startswith_def at_dollar_def)
  qed
qed

text \<open>
  C8 (as amended). The genome name is the file name without a final \<open>.gff\<close> or
  \<open>.gff.gz\<close>; when the name ends in a newline, the suffix is taken out before that
  newline, which stays; every other name, those ending in \<open>.gtf\<close> and \<open>.gtf.gz\<close> among
  them, is returned unchanged.
\<close>

theorem get_genome_name_suffix:
  "(name f = p @ ''.gff'' \<longrightarrow> get_genome_name f = p)
   \<and> (name f = p @ ''.gff.gz'' \<longrightarrow> get_genome_name f = p)
   \<and> (name f = p @ ''.gff'' @ [newline] \<longrightarrow> get_genome_name f = p @ [newline])
   \<and> (name f = p @ ''.gff.gz'' @ [newline] \<longrightarrow> get_genome_name f = p @ [newline])
   \<and> (\<not> endswith (name f) ''.gff'' \<and> \<not> endswith (name f) ''.gff.gz''
        \<and> \<not> endswith (name f) (''.gff'' @ [newline])
        \<and> \<not> endswith (name f) (''.gff.gz'' @ [newline])
      \<longrightarrow> get_genome_name f = name f)"
proof -
  have g: "get_genome_name f = strip_gff (name f)"
    by (simp add: get_genome_name_def re_sub_gff_strip_gff)
  have 1: "strip_gff (p @ ''.gff'') = p"
    by (simp add: strip_gff_def endswith_def chop_def)
  have 2: "strip_gff (p @ ''.gff.gz'') = p"
    by (simp add: strip_gff_def endswith_def chop_def)
  have 3: "strip_gff (p @ ''.gff'' @ [newline]) = p @ [newline]"
    by (simp add: strip_gff_def endswith_def chop_def newline_def)
  have 4: "strip_gff (p @ ''.gff.gz'' @ [newline]) = p @ [newline]"
    by (simp add: strip_gff_def endswith_def chop_def newline_def)
  show ?thesis
    unfolding g using 1 2 3 4 by (auto simp: strip_gff_def)
qed

theorem get_genome_name_suffix_witness:
  "get_genome_name \<lparr>name = ''genes.gff'', content = []\<rparr> = ''genes''
   \<and> get_genome_name \<lparr>name = ''genes.gff.gz'', content = []\<rparr> = ''genes''
   \<and> get_genome_name \<lparr>name = ''genes.gtf'', content = []\<rparr> = ''genes.gtf''"
  using get_genome_name_suffix[of "\<lparr>name = ''genes.gff'', content = []\<rparr>" "''genes''"]
    get_genome_name_suffix[of "\<lparr>name = ''genes.gff.gz'', content = []\<rparr>" "''genes''"]
    get_genome_name_suffix[of "\<lparr>name = ''genes.gtf'', content = []\<rparr>" "[]"]
  by (simp add: endswith_def newline_def)

theorem get_genome_name_newline_counterexample:
  "\<not> endswith (''a.gff'' @ [newline]) ''.gff''
   \<and> \<not> endswith (''a.gff'' @ [newline]) ''.gff.gz''
   \<and> get_genome_name \<lparr>name = ''a.gff'' @ [newline], content = []\<rparr> = ''a'' @ [newline]
   \<and> get_genome_name \<lparr>name = ''a.gff'' @ [newline], content = []\<rparr> \<noteq> ''a.gff'' @ [newline]"
  by (simp add: get_genome_name_def match_gff_def startswith_def at_dollar_def endswith_def
        newline_def)

section \<open>The consistency checks\<close>

lemma warn_each_eq: "warn_each fmt xs lg = lg @ map (\<lambda>x. (Warning, fmt x)) xs"
  unfolding warn_each_def
  by (induction xs arbitrary: lg) (simp_all add: log_msg_def)

lemma check_contigs_logger:
  "snd (check_contigs vcf_contigs annotation_contigs t lg) =
     lg @ [(Info, ''Checking that the VCF and GTF/GFF contigs are consistent'')]
        @ map (\<lambda>c. (Warning, no_coding_table_msg c)) (missing_coding_tables vcf_contigs t)
        @ map (\<lambda>c. (Warning, no_annotation_msg c)) (missing_contigs vcf_contigs annotation_contigs)
        @ map (\<lambda>v. (Warning, unknown_encoding_msg v)) (unknown_encodings t)"
  by (simp add: check_contigs_def Let_def warn_each_eq log_msg_def)

lemma check_contigs_result:
  "fst (check_contigs vcf_contigs annotation_contigs t lg) =
     (if missing_coding_tables vcf_contigs t \<noteq> [] then Inl MissingCodonTableError
      else if missing_contigs vcf_contigs annotation_contigs = vcf_contigs then Inl NoCommonContigsError
      else if unknown_encodings t \<noteq> [] then Inl UnknownCodingTableError
      else Inr ())"
  by (simp add: check_contigs_def Let_def)





lemma no_coding_table_warnings_append:
  "no_coding_table_warnings (xs @ ys) = no_coding_table_warnings xs @ no_coding_table_warnings ys"
  by (simp add: no_coding_table_warnings_def)

lemma no_coding_table_warnings_others:
  "no_coding_table_warnings (map (\<lambda>c. (Warning, no_annotation_msg c)) xs) = []"
  "no_coding_table_warnings (map (\<lambda>c. (Warning, unknown_encoding_msg c)) xs) = []"
  "no_coding_table_warnings (map (\<lambda>c. (Warning, no_coding_table_msg c)) xs)
     = map (\<lambda>c. (Warning, no_coding_table_msg c)) xs"
  "no_coding_table_warnings [(Info, m)] = []"
  by (induction xs)
     (simp_all add: no_coding_table_warnings_def startswith_def no_coding_table_msg_def
        unknown_encoding_msg_def no_annotation_msg_def)


lemma no_coding_table_warnings_check_contigs:
  "no_coding_table_warnings (snd (check_contigs vcf_contigs annotation_contigs t lg))
     = no_coding_table_warnings lg
       @ map (\<lambda>c. (Warning, no_coding_table_msg c)) (missing_coding_tables vcf_contigs t)"
  unfolding check_contigs_logger no_coding_table_warnings_append no_coding_table_warnings_others
  by simp








text \<open>
  C6. With the key \<open>default\<close> in the coding table, \<open>check_contigs\<close> logs no "no coding
  table" warning and does not raise \<open>MissingCodonTableError\<close>, whatever the contigs.
\<close>

theorem default_key_covers:
  "''default'' \<in> dict_keys t \<Longrightarrow>
     no_coding_table_warnings (snd (check_contigs vcf_contigs annotation_contigs t lg))
       = no_coding_table_warnings lg
     \<and> fst (check_contigs vcf_contigs annotation_contigs t lg) \<noteq> Inl MissingCodonTableError"
  by (simp add: no_coding_table_warnings_check_contigs check_contigs_result
        missing_coding_tables_def)

theorem default_key_covers_witness:
  "no_coding_table_warnings
       (snd (check_contigs [''chr1'', ''chr2''] [''chr2''] [(''default'', ''Standard'')] [])) = []
   \<and> fst (check_contigs [''chr1'', ''chr2''] [''chr2''] [(''default'', ''Standard'')] [])
       \<noteq> Inl MissingCodonTableError"
  using default_key_covers[of "[(''default'', ''Standard'')]" "[''chr1'', ''chr2'']" "[''chr2'']" "[]"]
  by (simp add: dict_keys_def no_coding_table_warnings_def)

section \<open>The contig extractor\<close>

lemma lines_from_nonempty: "[] \<notin> set (lines_from cur s)"
  by (induction s arbitrary: cur) auto

lemma file_lines_nonempty: "[] \<notin> set (file_lines f)"
  by (simp add: file_lines_def lines_from_nonempty)

lemma startswith_hash: "l \<noteq> [] \<Longrightarrow> startswith l ''#'' \<longleftrightarrow> hd l = CHR ''#''"
  by (cases l) (simp_all add: startswith_def)

lemma contigs_loop_result:
  "[] \<notin> set ls \<Longrightarrow>
     contigs_loop ls S
       = Inr (S \<union> (\<lambda>l. strip (first_column l)) ` {l \<in> set ls. \<not> startswith l ''#''})"
proof (induction ls arbitrary: S)
  case Nil
  then show ?case by simp
next
  case (Cons l ls)
  then obtain c cs where l: "l = c # cs" by (cases l) auto
  from Cons have IH: "\<And>S. contigs_loop ls S
       = Inr (S \<union> (\<lambda>l. strip (first_column l)) ` {l \<in> set ls. \<not> startswith l ''#''})"
    by simp
  show ?case
  proof (cases "c = CHR ''#''")
    case True
    then have "startswith l ''#''" by (simp add: l startswith_def)
    then have "{x \<in> set (l # ls). \<not> startswith x ''#''} = {x \<in> set ls. \<not> startswith x ''#''}"
      by auto
    then show ?thesis using True by (simp add: l IH)
  next
    case False
    then have "\<not> startswith l ''#''" by (simp add: l startswith_def)
    then have "{x \<in> set (l # ls). \<not> startswith x ''#''}
        = insert l {x \<in> set ls. \<not> startswith x ''#''}"
      by auto
    then show ?thesis using False by (simp add: l IH)
  qed
qed

lemma contig_set_image:
  "contig_set f = (\<lambda>l. strip (first_column l)) ` {l \<in> set (file_lines f). \<not> startswith l ''#''}"
  by (auto simp: contig_set_def)


lemma get_vcf_contigs_eq: "get_vcf_contigs f = Inr (sorted_list_of_set (contig_set f))"
  by (simp add: get_vcf_contigs_def contigs_loop_result[OF file_lines_nonempty] contig_set_image)





section \<open>The scratch directory at the end of a run\<close>

lemma dirs_log_world [simp]: "dirs (log_world lv m w) = dirs w"
  by (simp add: log_world_def)

lemma dirs_write_file [simp]: "dirs (write_file p t w) = dirs w"
  by (simp add: write_file_def)

lemma dirs_write_stream [simp]: "dirs (write_stream d t w) = dirs w"
  by (cases d) (simp_all add: write_stream_def append_file_def)

lemma dirs_foldl_write_file [simp]:
  "dirs (foldl (\<lambda>v (path, txt). write_file path txt v) w xs) = dirs w"
  by (induction xs arbitrary: w) (auto)

lemma check_call_fst:
  "fst (check_call e command so se w)
     = (if exit_status (run_process e command) \<noteq> 0 then Inl CalledProcessError else Inr ())"
  by (simp add: check_call_def Let_def)

lemma check_call_dirs [simp]: "dirs (snd (check_call e command so se w)) = dirs w"
  by (simp add: check_call_def Let_def)

lemma snpeff_build_database_fst:
  "fst (snpeff_build_database e j s c f so se w)
     = (if exit_status (run_process e (build_command j s c f)) \<noteq> 0
        then Inl BuildDatabaseError else Inr ())"
  by (auto simp: snpeff_build_database_def Let_def check_call_def split: prod.splits sum.splits)

lemma snpeff_build_database_dirs [simp]:
  "dirs (snd (snpeff_build_database e j s c f so se w)) = dirs w"
proof -
  define w2 where "w2 = log_world Debug
     (''Using the following command: '' @ quote @ join '' '' (build_command j s c f) @ quote)
     (log_world Info ''Building snpeff database'' w)"
  obtain r w3 where c: "check_call e (build_command j s c f) so se w2 = (r, w3)"
    by (cases "check_call e (build_command j s c f) so se w2")
  have "dirs w3 = dirs w2"
    using check_call_dirs[of e "build_command j s c f" so se w2] c by simp
  then have d: "dirs w3 = dirs w" by (simp add: w2_def)
  show ?thesis
    using c d by (cases r) (simp_all add: snpeff_build_database_def Let_def w2_def)
qed

lemma snpeff_annotate_fst:
  "fst (snpeff_annotate e j s v c output se st w)
     = (if exit_status (run_process e (annotate_command j s v c output st)) \<noteq> 0
        then Inl AnnotationError else Inr ())"
  by (auto simp: snpeff_annotate_def Let_def check_call_def split: prod.splits sum.splits)

lemma snpeff_annotate_dirs [simp]:
  "dirs (snd (snpeff_annotate e j s v c output se st w)) = dirs w"
proof -
  define w3 where "w3 = log_world Debug (''writing output to '' @ output)
     (log_world Debug
       (''Using the following command: '' @ quote
          @ join '' '' (annotate_command j s v c output st) @ quote)
       (log_world Info (''Annotating '' @ v) w))"
  obtain r w4 where c:
    "check_call e (annotate_command j s v c output st) (File output) se w3 = (r, w4)"
    by (cases "check_call e (annotate_command j s v c output st) (File output) se w3")
  have "dirs w4 = dirs w3"
    using check_call_dirs[of e "annotate_command j s v c output st" "File output" se w3] c
    by simp
  then have d: "dirs w4 = dirs w" by (simp add: w3_def)
  show ?thesis
    using c d by (cases r) (simp_all add: snpeff_annotate_def Let_def w3_def)
qed

lemma get_snpeff_output_files_fst:
  "fst (fst (get_snpeff_output_files e d dbg w)) = mkstemp e d ''snpeff_output_'' ''.vcf''"
  by (simp add: get_snpeff_output_files_def Let_def)

lemma get_snpeff_output_files_dirs [simp]:
  "dirs (snd (get_snpeff_output_files e d dbg w)) = dirs w"
  by (simp add: get_snpeff_output_files_def Let_def)

lemma files_write_stream:
  "files w p \<noteq> None \<Longrightarrow> files (write_stream d t w) p \<noteq> None"
  by (cases d) (simp_all add: write_stream_def append_file_def)

lemma check_call_output:
  "files (snd (check_call e command (File p) se w)) p \<noteq> None"
proof -
  have "files (write_stream (File p) t v) p \<noteq> None" for t v
    by (simp add: write_stream_def append_file_def)
  then show ?thesis
    by (simp add: check_call_def Let_def files_write_stream)
qed

lemma snpeff_annotate_output:
  "files (snd (snpeff_annotate e j s v c output se st w)) output \<noteq> None"
proof -
  define w3 where "w3 = log_world Debug (''writing output to '' @ output)
     (log_world Debug
       (''Using the following command: '' @ quote
          @ join '' '' (annotate_command j s v c output st) @ quote)
       (log_world Info (''Annotating '' @ v) w))"
  obtain r w4 where c:
    "check_call e (annotate_command j s v c output st) (File output) se w3 = (r, w4)"
    by (cases "check_call e (annotate_command j s v c output st) (File output) se w3")
  have "files w4 output \<noteq> None"
    using check_call_output[of e "annotate_command j s v c output st" "output" se w3] c
    by simp
  then show ?thesis
    using c by (cases r) (simp_all add: snpeff_annotate_def Let_def w3_def)
qed

lemma run_snpeff_cases:
  fixes e d j s vcf c dbg af w
  defines "tf \<equiv> mkstemp e d ''snpeff_output_'' ''.vcf''"
  defines "b \<equiv> exit_status (run_process e (build_command j s c af))"
  defines "x \<equiv> exit_status (run_process e
      (annotate_command j s (name vcf) c tf (path_join d ''snpEff_summary.html'')))"
  shows "dirs (snd (run_snpeff e d j s vcf c dbg af w)) = dirs w"
    and "b \<noteq> 0 \<Longrightarrow> fst (run_snpeff e d j s vcf c dbg af w) = Inl BuildDatabaseError"
    and "b = 0 \<Longrightarrow> x \<noteq> 0 \<Longrightarrow> fst (run_snpeff e d j s vcf c dbg af w) = Inl AnnotationError"
    and "b = 0 \<Longrightarrow> x = 0 \<Longrightarrow> fst (run_snpeff e d j s vcf c dbg af w) \<noteq> Inl BuildDatabaseError
          \<and> fst (run_snpeff e d j s vcf c dbg af w) \<noteq> Inl AnnotationError"
    and "b = 0 \<Longrightarrow> x = 0 \<Longrightarrow> \<exists>v. fst (run_snpeff e d j s vcf c dbg af w) = Inr v \<and> name v = tf"
proof -
  obtain t bo be ae w1 where g: "get_snpeff_output_files e d dbg w = ((t, bo, be, ae), w1)"
    by (metis prod.exhaust)
  have t: "t = tf"
    using get_snpeff_output_files_fst[of e d dbg w] g by (simp add: tf_def)
  have d1: "dirs w1 = dirs w"
    using get_snpeff_output_files_dirs[of e d dbg w] g by simp
  obtain rb w2 where bd: "snpeff_build_database e j s c af bo be w1 = (rb, w2)"
    by (metis prod.exhaust)
  have rb: "rb = (if b \<noteq> 0 then Inl BuildDatabaseError else Inr ())"
    using snpeff_build_database_fst[of e j s c af bo be w1] bd by (simp add: b_def)
  have d2: "dirs w2 = dirs w"
    using snpeff_build_database_dirs[of e j s c af bo be w1] bd d1 by simp
  define w3 where "w3 = log_world Debug (''Outputting temporary VCF to '' @ name vcf) w2"
  obtain ra w4 where an: "snpeff_annotate e j s (name vcf) c t ae
      (path_join d ''snpEff_summary.html'') w3 = (ra, w4)"
    by (metis prod.exhaust)
  have ra: "ra = (if x \<noteq> 0 then Inl AnnotationError else Inr ())"
    using snpeff_annotate_fst[of e j s "name vcf" c t ae "path_join d ''snpEff_summary.html''" w3] an
    by (simp add: x_def t)
  have "dirs (snd (ra, w4)) = dirs w3"
    unfolding an[symmetric] by (rule snpeff_annotate_dirs)
  then have d4: "dirs w4 = dirs w"
    using d2 by (simp add: w3_def)
  have r: "run_snpeff e d j s vcf c dbg af w =
      (case rb of
         Inl err \<Rightarrow> (Inl err, w2)
       | Inr _ \<Rightarrow>
           (case ra of
              Inl err \<Rightarrow> (Inl err, w4)
            | Inr _ \<Rightarrow>
                (case files w4 t of
                   None \<Rightarrow> (Inl FileNotFoundError, w4)
                 | Some txt \<Rightarrow> (Inr \<lparr>name = t, content = txt\<rparr>, w4))))"
    unfolding run_snpeff_def g prod.case Let_def bd w3_def[symmetric] an
    by (cases rb; cases ra) simp_all
  show "dirs (snd (run_snpeff e d j s vcf c dbg af w)) = dirs w"
    unfolding r using d2 d4 by (simp split: sum.splits option.splits)
  show "b \<noteq> 0 \<Longrightarrow> fst (run_snpeff e d j s vcf c dbg af w) = Inl BuildDatabaseError"
    unfolding r by (simp add: rb)
  show "b = 0 \<Longrightarrow> x \<noteq> 0 \<Longrightarrow> fst (run_snpeff e d j s vcf c dbg af w) = Inl AnnotationError"
    unfolding r by (simp add: rb ra)
  show "b = 0 \<Longrightarrow> x = 0 \<Longrightarrow> fst (run_snpeff e d j s vcf c dbg af w) \<noteq> Inl BuildDatabaseError
          \<and> fst (run_snpeff e d j s vcf c dbg af w) \<noteq> Inl AnnotationError"
    unfolding r by (simp add: rb ra split: option.splits)
  have "files (snd (ra, w4)) t \<noteq> None"
    unfolding an[symmetric] by (rule snpeff_annotate_output)
  then obtain body where "files w4 t = Some body" by auto
  then show "b = 0 \<Longrightarrow> x = 0 \<Longrightarrow> \<exists>v. fst (run_snpeff e d j s vcf c dbg af w) = Inr v \<and> name v = tf"
    unfolding r by (simp add: rb ra t)
qed

lemma run_and_finish_failure:
  assumes "fst (run_snpeff e d (java_exec a) (snpeff_exec a) (vcf_file a) c (debug a)
                  (annotation_file a) w) = Inl err"
  shows "run_and_finish e a d c w = (Inl err,
           snd (run_snpeff e d (java_exec a) (snpeff_exec a) (vcf_file a) c (debug a)
                  (annotation_file a) w))"
proof -
  obtain r w1 where rs: "run_snpeff e d (java_exec a) (snpeff_exec a) (vcf_file a) c (debug a)
                  (annotation_file a) w = (r, w1)"
    by (metis prod.exhaust)
  with assms have "r = Inl err" by simp
  then show ?thesis by (simp add: run_and_finish_def rs)
qed

lemma dirs_logger_update [simp]: "dirs (w\<lparr>logger := lg\<rparr>) = dirs w"
  by simp

lemma shutil_move_dirs: "dirs (snd (shutil_move src dst w)) = dirs w"
  by (simp add: shutil_move_def split: option.splits)

lemma move_annotated_vcf_dirs: "dirs (snd (move_annotated_vcf v out w)) = dirs w"
  by (cases out) (simp_all add: move_annotated_vcf_def shutil_move_dirs)

lemma move_summary_csv_dirs: "dirs (snd (move_summary_csv v out w)) = dirs w"
  by (cases out) (simp_all add: move_summary_csv_def shutil_move_dirs)

lemma delete_temp_database_dirs: "d \<notin> dirs (delete_temp_database d w)"
  by (simp add: delete_temp_database_def rmtree_def below_def)

lemma run_and_finish_success:
  assumes ok: "fst (run_and_finish e a d c w) = Inr ()" and d: "d \<in> dirs w"
  shows "d \<in> dirs (snd (run_and_finish e a d c w)) \<longleftrightarrow> keep a"
proof -
  obtain r w1 where rs: "run_snpeff e d (java_exec a) (snpeff_exec a) (vcf_file a) c (debug a)
                  (annotation_file a) w = (r, w1)"
    by (metis prod.exhaust)
  have d1: "dirs w1 = dirs w"
    using run_snpeff_cases(1)[of e d "java_exec a" "snpeff_exec a" "vcf_file a" c "debug a"
        "annotation_file a" w] rs by simp
  from ok rs obtain v where r: "r = Inr v"
    by (cases r) (simp_all add: run_and_finish_def)
  obtain rc lg where ca: "check_annotations (vcf_Reader e) v (logger w1) = (rc, lg)"
    by (metis prod.exhaust)
  from ok rs r ca have rc: "rc = Inr ()"
    by (cases rc) (simp_all add: run_and_finish_def)
  obtain rm w2 where mv: "move_annotated_vcf v (output_vcf a) (w1\<lparr>logger := lg\<rparr>) = (rm, w2)"
    by (metis prod.exhaust)
  from ok rs r ca rc mv have rm: "rm = Inr ()"
    by (cases rm) (simp_all add: run_and_finish_def)
  have d2: "dirs w2 = dirs w"
    using move_annotated_vcf_dirs[of v "output_vcf a" "w1\<lparr>logger := lg\<rparr>"] mv d1 by simp
  obtain rv w3 where ms: "move_summary_csv v (output_vcf a) w2 = (rv, w3)"
    by (metis prod.exhaust)
  from ok rs r ca rc mv rm ms have rv: "rv = Inr ()"
    by (cases rv) (simp_all add: run_and_finish_def)
  have d3: "dirs w3 = dirs w"
    using move_summary_csv_dirs[of v "output_vcf a" w2] ms d2 by simp
  show ?thesis
    using d d3
    by (simp add: run_and_finish_def rs r ca rc mv rm ms rv delete_temp_database_dirs)
qed

lemma get_annotation_contigs_pair:
  "get_annotation_contigs f lg
     = (Inr (sorted_list_of_set (contig_set f)),
        log_msg Debug ''Getting the contigs from the annotation file'' lg)"
  by (simp add: get_annotation_contigs_def Let_def contigs_loop_result[OF file_lines_nonempty]
        contig_set_image)

lemma check_contigs_fst_logger:
  "fst (check_contigs v ac t lg) = fst (check_contigs v ac t lg')"
  by (simp add: check_contigs_result)

lemma create_temp_database_fst:
  "fst (create_temp_database e f w) = mkdtemp e ''snpeff_data_dir_'' (cwd e)"
  by (simp add: create_temp_database_def Let_def)

lemma create_temp_database_dirs:
  "mkdtemp e ''snpeff_data_dir_'' (cwd e) \<in> dirs (snd (create_temp_database e f w))"
  by (simp add: create_temp_database_def Let_def log_world_def write_file_def)

lemma create_config_file_fst:
  "fst (create_config_file e d g v t w) = path_join d ''config''"
  by (simp add: create_config_file_def Let_def)

lemma create_config_file_dirs: "dirs (snd (create_config_file e d g v t w)) = dirs w"
  by (simp add: create_config_file_def Let_def)

lemma annotate_vcf_validated:
  assumes "validation_ok e a"
  shows "\<exists>w3. annotate_vcf e a w
            = run_and_finish e a (scratch_dir e) (path_join (scratch_dir e) ''config'') w3
          \<and> scratch_dir e \<in> dirs w3"
proof -
  define t where "t = yaml_full_load e (coding_table a)"
  define w1 where "w1 = log_world Debug ''Parsing the coding table'' w"
  define ac where "ac = sorted_list_of_set (contig_set (annotation_file a))"
  define lg where "lg = log_msg Debug ''Getting the contigs from the annotation file'' (logger w1)"
  define vc where "vc = sorted_list_of_set (contig_set (vcf_file a))"
  have v: "get_vcf_contigs (vcf_file a) = Inr vc"
    by (simp add: get_vcf_contigs_eq vc_def)
  obtain r lg1 where cc: "check_contigs vc ac t lg = (r, lg1)"
    by (metis prod.exhaust)
  from assms have "fst (check_contigs vc ac t []) = Inr ()"
    by (simp add: validation_ok_def get_annotation_contigs_pair v ac_def t_def)
  then have r: "r = Inr ()"
    using check_contigs_fst_logger[of vc ac t lg "[]"] cc by simp
  obtain d w2 where ct: "create_temp_database e (annotation_file a) (w1\<lparr>logger := lg1\<rparr>) = (d, w2)"
    by (metis prod.exhaust)
  have d: "d = scratch_dir e"
    using create_temp_database_fst[of e "annotation_file a" "w1\<lparr>logger := lg1\<rparr>"] ct
    by (simp add: scratch_dir_def)
  have d2: "scratch_dir e \<in> dirs w2"
    using create_temp_database_dirs[of e "annotation_file a" "w1\<lparr>logger := lg1\<rparr>"] ct
    by (simp add: scratch_dir_def)
  obtain c w3 where cf: "create_config_file e d (get_genome_name (annotation_file a)) vc t w2
      = (c, w3)"
    by (metis prod.exhaust)
  have c: "c = path_join (scratch_dir e) ''config''"
    using create_config_file_fst[of e d "get_genome_name (annotation_file a)" vc t w2] cf d
    by simp
  have d3: "scratch_dir e \<in> dirs w3"
    using create_config_file_dirs[of e d "get_genome_name (annotation_file a)" vc t w2] cf d2
    by simp
  have "annotate_vcf e a w = run_and_finish e a d c w3"
    unfolding annotate_vcf_def parse_coding_table_def prod.case
      t_def[symmetric] w1_def[symmetric] get_annotation_contigs_pair
      ac_def[symmetric] lg_def[symmetric] v sum.case cc r ct cf
    by simp
  with d c d3 show ?thesis by auto
qed

lemma process_failure:
  assumes v: "validation_ok e a"
    and f: "build_exit e a \<noteq> 0 \<or> annotate_exit e a \<noteq> 0"
  shows "fst (annotate_vcf e a w)
           = (if build_exit e a \<noteq> 0 then Inl BuildDatabaseError else Inl AnnotationError)
         \<and> scratch_dir e \<in> dirs (snd (annotate_vcf e a w))"
proof -
  from annotate_vcf_validated[OF v, of w] obtain w3 where
    a: "annotate_vcf e a w
          = run_and_finish e a (scratch_dir e) (path_join (scratch_dir e) ''config'') w3"
    and d: "scratch_dir e \<in> dirs w3"
    by blast
  let ?r = "run_snpeff e (scratch_dir e) (java_exec a) (snpeff_exec a) (vcf_file a)
              (path_join (scratch_dir e) ''config'') (debug a) (annotation_file a) w3"
  note rc = run_snpeff_cases[where e = e and d = "scratch_dir e" and j = "java_exec a"
      and s = "snpeff_exec a" and vcf = "vcf_file a"
      and c = "path_join (scratch_dir e) ''config''" and dbg = "debug a"
      and af = "annotation_file a" and w = w3,
      folded build_exit_def annotate_exit_def]
  have r: "fst ?r = (if build_exit e a \<noteq> 0 then Inl BuildDatabaseError else Inl AnnotationError)"
    using f rc(2) rc(3) by auto
  show ?thesis
  proof (cases "build_exit e a \<noteq> 0")
    case True
    with r have "fst ?r = Inl BuildDatabaseError" by simp
    from run_and_finish_failure[OF this] show ?thesis
      using True d rc(1) by (simp add: a)
  next
    case False
    with r have "fst ?r = Inl AnnotationError" by simp
    from run_and_finish_failure[OF this] show ?thesis
      using False d rc(1) by (simp add: a)
  qed
qed

lemma finished_run:
  assumes v: "validation_ok e a" and ok: "fst (annotate_vcf e a w) = Inr ()"
  shows "scratch_dir e \<in> dirs (snd (annotate_vcf e a w)) \<longleftrightarrow> keep a"
proof -
  from annotate_vcf_validated[OF v, of w] obtain w3 where
    a: "annotate_vcf e a w
          = run_and_finish e a (scratch_dir e) (path_join (scratch_dir e) ''config'') w3"
    and d: "scratch_dir e \<in> dirs w3"
    by blast
  from run_and_finish_success[OF ok[unfolded a] d] show ?thesis by (simp add: a)
qed

lemma counter_add_keys: "fst ` set (counter_add cnt k n) = insert k (fst ` set cnt)"
proof (induction cnt)
  case Nil
  then show ?case by simp
next
  case (Cons p cnt)
  obtain k' m where p: "p = (k', m)" by (cases p)
  show ?case by (cases "k' = k") (simp_all add: p Cons.IH insert_commute)
qed

lemma counter_update_keys:
  "fst ` set (counter_update cnt upd) = fst ` set cnt \<union> fst ` set upd"
  unfolding counter_update_def
proof (induction upd arbitrary: cnt)
  case Nil
  then show ?case by simp
next
  case (Cons u upd)
  obtain k n where u: "u = (k, n)" by (cases u)
  show ?case by (simp add: u Cons.IH counter_add_keys)
qed

lemma scan_annotations_keys: "fst ` set (scan_annotations anns) \<subseteq> fst ` set error_map"
proof -
  have "map fst (scan_annotations anns)
      = map fst (filter (\<lambda>(error, _). str_contains anns error) error_map)"
    unfolding scan_annotations_def by (induction error_map) auto
  then have "set (map fst (scan_annotations anns)) \<subseteq> set (map fst error_map)"
    by auto
  then show ?thesis by simp
qed

lemma check_annotations_loop_keys:
  "fst ` set cnt \<subseteq> fst ` set error_map
     \<Longrightarrow> fst ` set (snd (check_annotations_loop rs anns cnt)) \<subseteq> fst ` set error_map"
proof (induction rs arbitrary: anns cnt)
  case Nil
  then show ?case by simp
next
  case (Cons r rs)
  show ?case
  proof (cases "INFO r ''ANN''")
    case None
    have "fst ` set (counter_update cnt (scan_annotations anns)) \<subseteq> fst ` set error_map"
      using Cons.prems scan_annotations_keys[of anns] by (simp add: counter_update_keys)
    from Cons.IH[OF this] show ?thesis by (simp add: None)
  next
    case (Some ann)
    from Cons.IH[OF Cons.prems] show ?thesis by (simp add: Some)
  qed
qed

lemma warn_counts_fst:
  "fst ` set cnt \<subseteq> fst ` set error_map \<Longrightarrow> fst (warn_counts cnt lg) = Inr ()"
proof (induction cnt arbitrary: lg)
  case Nil
  then show ?case by simp
next
  case (Cons kc cnt)
  obtain k c where kc: "kc = (k, c)" by (cases kc)
  from Cons.prems have "k \<in> fst ` set error_map" by (simp add: kc)
  then obtain x where x: "map_of error_map k = Some x"
    by (metis map_of_eq_None_iff not_Some_eq)
  from Cons.prems have "fst ` set cnt \<subseteq> fst ` set error_map" by simp
  from Cons.IH[OF this] show ?case by (simp add: kc x)
qed

lemma check_records_fst: "fst (check_records rs lg) = Inr ()"
proof -
  have "fst ` set (error_tally rs) \<subseteq> fst ` set error_map"
    unfolding error_tally_def by (rule check_annotations_loop_keys) simp
  from warn_counts_fst[OF this, of lg] show ?thesis
    by (cases "warn_counts (error_tally rs) lg") (simp add: check_records_def Let_def)
qed

lemma check_annotations_fst: "fst (check_annotations rd v lg) = Inr ()"
  by (simp add: check_annotations_def Let_def check_records_fst)

lemma run_and_finish_stdout:
  assumes r: "fst (run_snpeff e d (java_exec a) (snpeff_exec a) (vcf_file a) c (debug a)
                  (annotation_file a) w) = Inr v"
    and out: "output_vcf a = Sys_stdout"
  shows "fst (run_and_finish e a d c w) = Inr ()"
proof -
  obtain r w1 where rs: "run_snpeff e d (java_exec a) (snpeff_exec a) (vcf_file a) c (debug a)
                  (annotation_file a) w = (r, w1)"
    by (metis prod.exhaust)
  with r have r: "r = Inr v" by simp
  obtain rc lg where ca: "check_annotations (vcf_Reader e) v (logger w1) = (rc, lg)"
    by (metis prod.exhaust)
  have rc: "rc = Inr ()"
    using check_annotations_fst[of "vcf_Reader e" v "logger w1"] ca by simp
  show ?thesis
    by (simp add: run_and_finish_def rs r ca rc out move_annotated_vcf_def move_summary_csv_def)
qed

lemma clean_run:
  assumes v: "validation_ok e a"
    and b: "build_exit e a = 0" and x: "annotate_exit e a = 0"
    and out: "output_vcf a = Sys_stdout"
  shows "fst (annotate_vcf e a w) = Inr ()"
proof -
  from annotate_vcf_validated[OF v, of w] obtain w3 where
    a: "annotate_vcf e a w
          = run_and_finish e a (scratch_dir e) (path_join (scratch_dir e) ''config'') w3"
    by blast
  note rc = run_snpeff_cases[where e = e and d = "scratch_dir e" and j = "java_exec a"
      and s = "snpeff_exec a" and vcf = "vcf_file a"
      and c = "path_join (scratch_dir e) ''config''" and dbg = "debug a"
      and af = "annotation_file a" and w = w3,
      folded build_exit_def annotate_exit_def]
  from rc(5)[OF b x] obtain v where
    "fst (run_snpeff e (scratch_dir e) (java_exec a) (snpeff_exec a) (vcf_file a)
       (path_join (scratch_dir e) ''config'') (debug a) (annotation_file a) w3) = Inr v"
    by blast
  from run_and_finish_stdout[OF this out] show ?thesis by (simp add: a)
qed

lemma demo_validation_ok: "validation_ok (demo_env status) demo_args"
  unfolding validation_ok_def by code_simp

lemma demo_scratch_dir: "scratch_dir (demo_env status) = ''/work/snpeff_data_dir_k3x''"
  by (simp add: scratch_dir_def demo_env_def path_join_def endswith_def startswith_def)

lemma demo_exits:
  "build_exit (demo_env status) demo_args = status"
  "annotate_exit (demo_env status) demo_args = status"
  by (simp_all add: build_exit_def annotate_exit_def demo_env_def)

text \<open>
  C1 (as amended). After a validation that raised nothing, a build step or an annotate step
  that fails leaves \<open>annotate_vcf\<close> with its exception and with the scratch directory in
  place, whatever \<open>keep\<close> is; the scratch directory is gone only after a run that raised
  nothing, and then exactly when \<open>keep\<close> is not set.
\<close>

theorem scratch_dir_after_run:
  assumes "validation_ok e a"
  shows "(build_exit e a \<noteq> 0 \<longrightarrow>
            fst (annotate_vcf e a w) = Inl BuildDatabaseError
            \<and> scratch_dir e \<in> dirs (snd (annotate_vcf e a w)))
       \<and> (build_exit e a = 0 \<and> annotate_exit e a \<noteq> 0 \<longrightarrow>
            fst (annotate_vcf e a w) = Inl AnnotationError
            \<and> scratch_dir e \<in> dirs (snd (annotate_vcf e a w)))
       \<and> (fst (annotate_vcf e a w) = Inr () \<longrightarrow>
            (scratch_dir e \<notin> dirs (snd (annotate_vcf e a w)) \<longleftrightarrow> \<not> keep a))"
  using process_failure[OF assms, of w] finished_run[OF assms, of w]
  by auto

theorem scratch_dir_after_run_witness:
  "fst (annotate_vcf (demo_env 1) demo_args demo_world) = Inl BuildDatabaseError
   \<and> ''/work/snpeff_data_dir_k3x'' \<in> dirs (snd (annotate_vcf (demo_env 1) demo_args demo_world))
   \<and> fst (annotate_vcf (demo_env 0) demo_args demo_world) = Inr ()
   \<and> ''/work/snpeff_data_dir_k3x'' \<notin> dirs (snd (annotate_vcf (demo_env 0) demo_args demo_world))"
proof -
  have ok: "fst (annotate_vcf (demo_env 0) demo_args demo_world) = Inr ()"
    by (rule clean_run) (simp_all add: demo_validation_ok demo_exits, simp add: demo_args_def)
  have k: "\<not> keep demo_args" by (simp add: demo_args_def)
  show ?thesis
    using scratch_dir_after_run[OF demo_validation_ok, of 1 demo_world]
      scratch_dir_after_run[OF demo_validation_ok, of 0 demo_world] ok k
    by (simp add: demo_exits demo_scratch_dir)
qed

theorem scratch_dir_left_counterexample:
  "\<not> keep demo_args
   \<and> ''/work/snpeff_data_dir_k3x'' \<notin> dirs demo_world
   \<and> fst (annotate_vcf (demo_env 1) demo_args demo_world) = Inl BuildDatabaseError
   \<and> ''/work/snpeff_data_dir_k3x'' \<in> dirs (snd (annotate_vcf (demo_env 1) demo_args demo_world))"
proof -
  have "build_exit (demo_env 1) demo_args \<noteq> 0 \<or> annotate_exit (demo_env 1) demo_args \<noteq> 0"
    by (simp add: demo_exits)
  from process_failure[OF demo_validation_ok this, of demo_world]
  have "fst (annotate_vcf (demo_env 1) demo_args demo_world) = Inl BuildDatabaseError
    \<and> ''/work/snpeff_data_dir_k3x'' \<in> dirs (snd (annotate_vcf (demo_env 1) demo_args demo_world))"
    by (simp add: demo_exits demo_scratch_dir)
  moreover have "\<not> keep demo_args" by (simp add: demo_args_def)
  moreover have "''/work/snpeff_data_dir_k3x'' \<notin> dirs demo_world"
    by (simp add: demo_world_def)
  ultimately show ?thesis by simp
qed

end
